theory Spec2Isabelle
  imports Complex_Main "HOL-Library.AList" "HOL-Library.Product_Lexorder"
begin

section \<open>Admission policy of the bouncer (soulbios\_player.py)\<close>

text \<open>
  Python integers are \<open>int\<close>. Python floats are modelled by exact rationals
  (\<open>rat\<close>): the thresholds 0.55, 0.4, 0.75 and 0.1 are the fractions they
  denote and \<open>/\<close> is exact division. A dictionary read with \<open>d.get(k, default)\<close>
  is an optional field read with \<open>get_default\<close>. A dictionary that the code
  iterates over is an association list in insertion order.
\<close>

datatype py_error = ZeroDivisionError

definition true_div :: "int \<Rightarrow> int \<Rightarrow> py_error + rat" where
  "true_div a b = (if b = 0 then Inl ZeroDivisionError else Inr (of_int a / of_int b))"

definition get_default :: "'a option \<Rightarrow> 'a \<Rightarrow> 'a" where
  "get_default v d = (case v of Some x \<Rightarrow> x | None \<Rightarrow> d)"

record constraint_data =
  target :: int
  admitted :: int

record early_game =
  base_leniency :: "rat option"
  scaling_factor :: "rat option"

record late_game =
  base_threshold :: "rat option"
  buffer_percent :: "rat option"

datatype metadata = MetaObject | MetaOther

record strategy_params =
  policy_type :: "string option"
  phase_switch_point :: "int option"
  early_game_params :: "early_game option"
  late_game_params :: "late_game option"
  ooda_metadata :: "metadata option"

type_synonym person_attributes = "(string \<times> bool) list"

record bouncer_policy =
  constraints :: "(string \<times> constraint_data) list"
  strategy :: strategy_params
  slots_filled :: int
  rejections :: int
  slots_remaining :: int
  recent_decisions :: "bool list"

text \<open>\<open>person_attributes.get(attr, False)\<close>\<close>

definition person_get :: "person_attributes \<Rightarrow> string \<Rightarrow> bool" where
  "person_get pa attr = get_default (map_of pa attr) False"

text \<open>The panic loop of \<open>should_admit\<close>: True when the loop returns True,
  False when it falls through.\<close>

fun panic_mode :: "int \<Rightarrow> person_attributes \<Rightarrow> (string \<times> constraint_data) list \<Rightarrow> bool" where
  "panic_mode sr pa [] = False"
| "panic_mode sr pa ((attr, d) # rest) =
     (let needed = target d - admitted d in
      if sr > 0 \<and> needed \<ge> sr then
        (if person_get pa attr then True else panic_mode sr pa rest)
      else panic_mode sr pa rest)"

text \<open>The loop of \<open>_max_urgency_logic\<close> that fills the list \<open>urgencies\<close>.\<close>

fun urgency_loop :: "bouncer_policy \<Rightarrow> person_attributes \<Rightarrow> rat list \<Rightarrow> py_error + rat list" where
  "urgency_loop p [] urgencies = Inr urgencies"
| "urgency_loop p ((attr, has_attr) # rest) urgencies =
     (if has_attr then
        (case map_of (constraints p) attr of
           None \<Rightarrow> urgency_loop p rest urgencies
         | Some d \<Rightarrow>
             if slots_remaining p > 0 then
               (let needed = target d - admitted d in
                case true_div needed (slots_remaining p) of
                  Inl e \<Rightarrow> Inl e
                | Inr urgency \<Rightarrow> urgency_loop p rest (urgencies @ [urgency]))
             else urgency_loop p rest urgencies)
      else urgency_loop p rest urgencies)"

text \<open>Python's \<open>max\<close> of a non-empty list.\<close>

fun py_max :: "rat list \<Rightarrow> rat" where
  "py_max [] = 0"
| "py_max (x # xs) = fold max xs x"

definition max_urgency_logic :: "bouncer_policy \<Rightarrow> person_attributes \<Rightarrow> py_error + bool" where
  "max_urgency_logic p pa =
     (let params = get_default (early_game_params (strategy p))
                     \<lparr>base_leniency = None, scaling_factor = None\<rparr>;
          bl = get_default (base_leniency params) (11 / 20);
          sf = get_default (scaling_factor params) (2 / 5)
      in case urgency_loop p pa [] of
           Inl e \<Rightarrow> Inl e
         | Inr urgencies \<Rightarrow>
             if urgencies = [] then Inr False
             else
               (let max_urgency = py_max urgencies in
                if max_urgency \<ge> 1 then Inr True
                else
                  (let dynamic_threshold = bl + sf * (of_int (slots_filled p) / 1000)
                   in Inr (max_urgency \<ge> dynamic_threshold))))"

text \<open>The loop of \<open>_combined_value_logic\<close> that accumulates \<open>combined_urgency\<close>.\<close>

fun combined_loop :: "bouncer_policy \<Rightarrow> person_attributes \<Rightarrow> rat \<Rightarrow> py_error + rat" where
  "combined_loop p [] combined_urgency = Inr combined_urgency"
| "combined_loop p ((attr, has_attr) # rest) combined_urgency =
     (if has_attr then
        (case map_of (constraints p) attr of
           None \<Rightarrow> combined_loop p rest combined_urgency
         | Some d \<Rightarrow>
             if slots_remaining p > 0 then
               (let needed = target d - admitted d in
                case true_div needed (slots_remaining p) of
                  Inl e \<Rightarrow> Inl e
                | Inr urgency \<Rightarrow> combined_loop p rest (combined_urgency + urgency))
             else combined_loop p rest combined_urgency)
      else combined_loop p rest combined_urgency)"

definition combined_value_logic :: "bouncer_policy \<Rightarrow> person_attributes \<Rightarrow> py_error + bool" where
  "combined_value_logic p pa =
     (let params = get_default (late_game_params (strategy p))
                     \<lparr>base_threshold = None, buffer_percent = None\<rparr>;
          bt = get_default (base_threshold params) (3 / 4);
          bp = get_default (buffer_percent params) (1 / 10)
      in case combined_loop p pa 0 of
           Inl e \<Rightarrow> Inl e
         | Inr combined_urgency \<Rightarrow>
             if combined_urgency = 0 then Inr False
             else if combined_urgency \<ge> 1 + bp then Inr True
             else Inr (combined_urgency \<ge> bt))"

definition should_admit :: "bouncer_policy \<Rightarrow> person_attributes \<Rightarrow> py_error + bool" where
  "should_admit p pa =
     (if panic_mode (slots_remaining p) pa (constraints p) then Inr True
      else
        (let pt = get_default (policy_type (strategy p)) ''Hybrid'' in
         if pt = ''Hybrid'' \<and> slots_filled p < get_default (phase_switch_point (strategy p)) 400
         then max_urgency_logic p pa
         else if pt = ''MaxUrgency'' then max_urgency_logic p pa
         else combined_value_logic p pa))"

subsection \<open>The rules as the specification words them\<close>

text \<open>Deficit and urgency of the specification: the deficit is floored at 0 and
  the denominator of the urgency at 1.\<close>

definition spec_deficit :: "constraint_data \<Rightarrow> int" where
  "spec_deficit d = max 0 (target d - admitted d)"


text \<open>The ledger entries of the tracked attributes that the candidate carries,
  in the order of the candidate's attributes.\<close>

fun carried_tracked :: "bouncer_policy \<Rightarrow> person_attributes \<Rightarrow> constraint_data list" where
  "carried_tracked p [] = []"
| "carried_tracked p ((attr, has_attr) # rest) =
     (case map_of (constraints p) attr of
        None \<Rightarrow> carried_tracked p rest
      | Some d \<Rightarrow> if has_attr then d # carried_tracked p rest else carried_tracked p rest)"


definition early_bar :: "bouncer_policy \<Rightarrow> rat" where
  "early_bar p =
     get_default (base_leniency (get_default (early_game_params (strategy p))
        \<lparr>base_leniency = None, scaling_factor = None\<rparr>)) (11 / 20)
     + get_default (scaling_factor (get_default (early_game_params (strategy p))
        \<lparr>base_leniency = None, scaling_factor = None\<rparr>)) (2 / 5)
       * (of_int (slots_filled p) / 1000)"



definition late_base_threshold :: "bouncer_policy \<Rightarrow> rat" where
  "late_base_threshold p =
     get_default (base_threshold (get_default (late_game_params (strategy p))
        \<lparr>base_threshold = None, buffer_percent = None\<rparr>)) (3 / 4)"

definition late_buffer_percent :: "bouncer_policy \<Rightarrow> rat" where
  "late_buffer_percent p =
     get_default (buffer_percent (get_default (late_game_params (strategy p))
        \<lparr>base_threshold = None, buffer_percent = None\<rparr>)) (1 / 10)"


text \<open>The urgency as the code computes it: the difference \<open>target - admitted\<close>
  is not floored, and the denominator is \<open>slots_remaining\<close> itself.\<close>

definition code_urgency :: "bouncer_policy \<Rightarrow> constraint_data \<Rightarrow> rat" where
  "code_urgency p d = of_int (target d - admitted d) / of_int (slots_remaining p)"

definition code_sum_urgency :: "bouncer_policy \<Rightarrow> person_attributes \<Rightarrow> rat" where
  "code_sum_urgency p pa = sum_list (map (code_urgency p) (carried_tracked p pa))"

text \<open>Phase selection as the specification words it: by the arrival index of
  the candidate.\<close>

definition spec_phase_decision ::
    "bouncer_policy \<Rightarrow> person_attributes \<Rightarrow> int \<Rightarrow> py_error + bool" where
  "spec_phase_decision p pa person_index =
     (if person_index < get_default (phase_switch_point (strategy p)) 400
      then max_urgency_logic p pa else combined_value_logic p pa)"

subsection \<open>Review scheduling in \<open>play_game\<close>\<close>

definition STRATEGIC_REVIEW_INTERVAL :: int where
  "STRATEGIC_REVIEW_INTERVAL = 100"

definition get_acceptance_rate_in_window :: "bouncer_policy \<Rightarrow> nat \<Rightarrow> py_error + rat" where
  "get_acceptance_rate_in_window p window_size =
     (if recent_decisions p = [] \<or> length (recent_decisions p) < window_size then Inr 1
      else
        (let recent_window =
               (if window_size = 0 then recent_decisions p
                else drop (length (recent_decisions p) - window_size) (recent_decisions p));
             acceptances = length (filter (\<lambda>decision. decision) recent_window)
         in true_div (int acceptances) (int (length recent_window))))"

definition emergency_triggered :: "int \<Rightarrow> bouncer_policy \<Rightarrow> py_error + bool" where
  "emergency_triggered person_index p =
     (if person_index > 450 \<and> person_index mod STRATEGIC_REVIEW_INTERVAL \<noteq> 0
         \<and> length (recent_decisions p) \<ge> 25
      then (case get_acceptance_rate_in_window p 25 of
              Inl e \<Rightarrow> Inl e
            | Inr rate \<Rightarrow> Inr (rate = 0))
      else Inr False)"

definition review_triggered :: "int \<Rightarrow> bouncer_policy \<Rightarrow> py_error + bool" where
  "review_triggered person_index p =
     (case emergency_triggered person_index p of
        Inl e \<Rightarrow> Inl e
      | Inr emergency \<Rightarrow>
          Inr (person_index > 0
               \<and> (person_index mod STRATEGIC_REVIEW_INTERVAL = 0 \<or> emergency)))"

section \<open>Strategy provider (\<open>get_soulbios_strategy\<close>)\<close>







text \<open>The dictionary \<open>fallback_strategy\<close> that \<open>play_game\<close> passes with the
  first request. It has no key \<open>buffer_percent\<close>.\<close>

definition fallback_strategy :: strategy_params where
  "fallback_strategy =
     \<lparr>policy_type = Some ''Hybrid'',
      phase_switch_point = Some 400,
      early_game_params = Some \<lparr>base_leniency = Some (11 / 20), scaling_factor = Some (2 / 5)\<rparr>,
      late_game_params = Some \<lparr>base_threshold = Some (3 / 4), buffer_percent = None\<rparr>,
      ooda_metadata = None\<rparr>"



section \<open>Strategy cache (strategy\_cache.py)\<close>

record constraint_entry =
  attribute :: string
  minCount :: "int option"
  entry_admitted :: "int option"

record game_state =
  current_person :: "int option"
  accepted_count :: "int option"
  state_constraints :: "constraint_entry list"
  observedFrequencies :: "(string \<times> rat) list"

text \<open>The dictionary \<open>{c.get("attribute"): c.get("minCount", 0) for c in ...}\<close>:
  a later entry of the list overwrites an earlier one with the same attribute.\<close>

definition constraint_targets :: "game_state \<Rightarrow> string \<Rightarrow> int option" where
  "constraint_targets state =
     map_of (rev (map (\<lambda>c. (attribute c, get_default (minCount c) 0)) (state_constraints state)))"

definition constraint_keys :: "game_state \<Rightarrow> game_state \<Rightarrow> string list" where
  "constraint_keys state1 state2 =
     remdups (map attribute (state_constraints state1) @ map attribute (state_constraints state2))"

definition constraint_factor :: "game_state \<Rightarrow> game_state \<Rightarrow> string \<Rightarrow> rat" where
  "constraint_factor state1 state2 attr =
     (let diff = \<bar>get_default (constraint_targets state1 attr) 0
                  - get_default (constraint_targets state2 attr) 0\<bar>
      in max 0 (1 - of_int diff / 200))"

definition calculate_similarity :: "game_state \<Rightarrow> game_state \<Rightarrow> rat" where
  "calculate_similarity state1 state2 =
     (let person_diff = \<bar>get_default (current_person state1) 0
                         - get_default (current_person state2) 0\<bar>;
          person_similarity = max 0 (1 - of_int person_diff / 100);
          accept_diff = \<bar>get_default (accepted_count state1) 0
                         - get_default (accepted_count state2) 0\<bar>;
          accept_similarity = max 0 (1 - of_int accept_diff / 50);
          constraint_similarity =
            fold (\<lambda>attr acc. acc * constraint_factor state1 state2 attr)
              (constraint_keys state1 state2) 1
      in person_similarity * (2 / 5) + accept_similarity * (3 / 10)
         + constraint_similarity * (3 / 10))"



text \<open>
  A cache entry. The time is an integer count of microseconds; the hash function is a
  parameter of the model, \<open>'h\<close> the type of its values. The game state kept in
  \<open>_cache_metadata.original_game_state\<close> of the stored strategy is the field
  \<open>original_game_state\<close>.
\<close>

record 'h cached_strategy =
  cached_params :: strategy_params
  original_game_state :: game_state
  timestamp :: int
  game_state_hash :: 'h
  similarity_score :: rat
  hit_count :: nat

record 'h strategy_cache =
  cache :: "('h \<times> 'h cached_strategy) list"
  max_cache_size :: nat
  similarity_threshold :: rat
  max_age_minutes :: int
  stats_hits :: nat
  stats_misses :: nat
  stats_total_requests :: nat
  stats_cache_size :: nat

text \<open>\<open>StrategyCache.__init__\<close>\<close>

definition new_cache :: "'h strategy_cache" where
  "new_cache =
     \<lparr>cache = [], max_cache_size = 1000, similarity_threshold = 17 / 20,
      max_age_minutes = 30, stats_hits = 0, stats_misses = 0,
      stats_total_requests = 0, stats_cache_size = 0\<rparr>"





text \<open>The sort key \<open>(timestamp, hit_count)\<close> of \<open>_evict_oldest_entries\<close>; pairs
  are ordered lexicographically and the sort is stable, as Python's \<open>sorted\<close> is.
  \<open>int(n * 0.2)\<close> is \<open>n div 5\<close>.\<close>

definition eviction_key :: "'h \<times> 'h cached_strategy \<Rightarrow> int \<times> nat" where
  "eviction_key x = (timestamp (snd x), hit_count (snd x))"

definition evict_oldest_entries :: "'h strategy_cache \<Rightarrow> 'h strategy_cache" where
  "evict_oldest_entries c =
     (let sorted_entries = sort_key eviction_key (cache c);
          entries_to_remove = length sorted_entries div 5
      in c\<lparr>cache := fold (\<lambda>x entries. AList.delete (fst x) entries)
                      (take entries_to_remove sorted_entries) (cache c)\<rparr>)"

definition cache_strategy ::
    "(game_state \<Rightarrow> 'h) \<Rightarrow> int \<Rightarrow> 'h strategy_cache \<Rightarrow> game_state \<Rightarrow> strategy_params
     \<Rightarrow> 'h strategy_cache" where
  "cache_strategy calculate_game_state_hash now c state params =
     (let h = calculate_game_state_hash state;
          cached = \<lparr>cached_params = params, original_game_state = state, timestamp = now,
                    game_state_hash = h, similarity_score = 1, hit_count = 0\<rparr>;
          c1 = (if length (cache c) \<ge> max_cache_size c then evict_oldest_entries c else c);
          entries = AList.update h cached (cache c1)
      in c1\<lparr>cache := entries, stats_cache_size := length entries\<rparr>)"

text \<open>A sequence of \<open>cache_strategy\<close> calls, each with its time, game state and
  strategy.\<close>

fun cache_all ::
    "(game_state \<Rightarrow> 'h) \<Rightarrow> (int \<times> game_state \<times> strategy_params) list
     \<Rightarrow> 'h strategy_cache \<Rightarrow> 'h strategy_cache" where
  "cache_all calculate_game_state_hash [] c = c"
| "cache_all calculate_game_state_hash ((now, state, params) # calls) c =
     cache_all calculate_game_state_hash calls
       (cache_strategy calculate_game_state_hash now c state params)"

text \<open>The entries that an eviction removes, as the specification words it: the
  first fifth of the entries in ascending order of \<open>(timestamp, hit_count)\<close>.\<close>

definition oldest_fifth :: "'h strategy_cache \<Rightarrow> ('h \<times> 'h cached_strategy) list" where
  "oldest_fifth c = take (length (cache c) div 5) (sort_key eviction_key (cache c))"


section \<open>Concrete states used by the witnesses and counterexamples\<close>

text \<open>The scenario of the specification: one quota of 600 for ''young'', 590 of
  them admitted, 994 of the 1000 slots filled.\<close>

definition ex_panic :: bouncer_policy where
  "ex_panic =
     \<lparr>constraints = [(''young'', \<lparr>target = 600, admitted = 590\<rparr>)],
      strategy = fallback_strategy, slots_filled = 994, rejections = 1,
      slots_remaining = 6, recent_decisions = []\<rparr>"

definition ex_full :: bouncer_policy where
  "ex_full =
     \<lparr>constraints = [(''young'', \<lparr>target = 600, admitted = 590\<rparr>)],
      strategy = fallback_strategy, slots_filled = 1000, rejections = 1,
      slots_remaining = 0, recent_decisions = []\<rparr>"

definition ex_early :: bouncer_policy where
  "ex_early =
     \<lparr>constraints = [(''young'', \<lparr>target = 600, admitted = 60\<rparr>)],
      strategy = fallback_strategy, slots_filled = 100, rejections = 400,
      slots_remaining = 900, recent_decisions = []\<rparr>"



text \<open>Game states and caches. The hash of the examples is the arrival index of
  the state; the cache \<open>ex_full_cache\<close> is configured for 5 entries and holds 5.\<close>

definition state_a :: game_state where
  "state_a =
     \<lparr>current_person = Some 500, accepted_count = Some 200,
      state_constraints = [\<lparr>attribute = ''young'', minCount = Some 600, entry_admitted = Some 100\<rparr>],
      observedFrequencies = []\<rparr>"

definition state_b :: game_state where
  "state_b =
     \<lparr>current_person = Some 510, accepted_count = Some 205,
      state_constraints = [\<lparr>attribute = ''young'', minCount = Some 600, entry_admitted = Some 250\<rparr>],
      observedFrequencies = []\<rparr>"

definition state_c :: game_state where
  "state_c =
     \<lparr>current_person = Some 520, accepted_count = Some 200,
      state_constraints = [\<lparr>attribute = ''young'', minCount = Some 600, entry_admitted = Some 100\<rparr>],
      observedFrequencies = []\<rparr>"

definition ex_hash :: "game_state \<Rightarrow> nat" where
  "ex_hash state = nat (get_default (current_person state) 0)"

definition ex_entry :: "nat \<Rightarrow> game_state \<Rightarrow> int \<Rightarrow> nat \<Rightarrow> nat \<times> nat cached_strategy" where
  "ex_entry k state t hits =
     (k, \<lparr>cached_params = fallback_strategy, original_game_state = state, timestamp = t,
          game_state_hash = k, similarity_score = 1, hit_count = hits\<rparr>)"


definition ex_full_cache :: "nat strategy_cache" where
  "ex_full_cache =
     new_cache\<lparr>max_cache_size := 5,
       cache := [ex_entry 1 state_a 30 0, ex_entry 2 state_a 10 2, ex_entry 3 state_b 20 0,
                 ex_entry 4 state_b 10 1, ex_entry 5 state_c 50 0]\<rparr>"

section \<open>Properties of the admission policy\<close>

subsection \<open>The loops in closed form\<close>

lemma panic_mode_iff:
  "panic_mode sr pa cs \<longleftrightarrow>
     (sr > 0 \<and> (\<exists>(attr, d) \<in> set cs. target d - admitted d \<ge> sr \<and> person_get pa attr))"
  by (induction sr pa cs rule: panic_mode.induct) (auto simp: Let_def)

lemma urgency_loop_pos:
  "slots_remaining p > 0 \<Longrightarrow>
   urgency_loop p pa us = Inr (us @ map (code_urgency p) (carried_tracked p pa))"
  by (induction pa arbitrary: us)
     (auto simp: true_div_def code_urgency_def Let_def split: option.splits)

lemma urgency_loop_nonpos:
  "\<not> slots_remaining p > 0 \<Longrightarrow> urgency_loop p pa us = Inr us"
  by (induction pa arbitrary: us) (auto split: option.splits)

lemma combined_loop_pos:
  "slots_remaining p > 0 \<Longrightarrow>
   combined_loop p pa acc = Inr (acc + sum_list (map (code_urgency p) (carried_tracked p pa)))"
  by (induction pa arbitrary: acc)
     (auto simp: true_div_def code_urgency_def Let_def split: option.splits)

lemma combined_loop_nonpos:
  "\<not> slots_remaining p > 0 \<Longrightarrow> combined_loop p pa acc = Inr acc"
  by (induction pa arbitrary: acc) (auto split: option.splits)

lemma py_max_Max:
  assumes "xs \<noteq> []"
  shows "py_max xs = Max (set xs)"
proof (cases xs)
  case Nil
  then show ?thesis using assms by simp
next
  case (Cons a list)
  then show ?thesis using Max.set_eq_fold [of a list] by simp
qed




lemma max_urgency_logic_exact:
  assumes "slots_remaining p > 0"
  shows "max_urgency_logic p pa =
           Inr (carried_tracked p pa \<noteq> []
                \<and> (Max (set (map (code_urgency p) (carried_tracked p pa))) \<ge> 1
                   \<or> Max (set (map (code_urgency p) (carried_tracked p pa))) \<ge> early_bar p))"
  using assms
  by (simp add: max_urgency_logic_def urgency_loop_pos py_max_Max early_bar_def Let_def)

lemma combined_value_logic_exact:
  assumes "slots_remaining p > 0"
  shows "combined_value_logic p pa =
           Inr (code_sum_urgency p pa \<noteq> 0
                \<and> (code_sum_urgency p pa \<ge> 1 + late_buffer_percent p
                   \<or> code_sum_urgency p pa \<ge> late_base_threshold p))"
  using assms
  by (simp add: combined_value_logic_def combined_loop_pos code_sum_urgency_def
      late_buffer_percent_def late_base_threshold_def Let_def)

lemma max_urgency_logic_total: "\<exists>b. max_urgency_logic p pa = Inr b"
proof (cases "slots_remaining p > 0")
  case True
  then show ?thesis using max_urgency_logic_exact [of p pa] by blast
next
  case False
  then have "max_urgency_logic p pa = Inr False"
    by (simp add: max_urgency_logic_def urgency_loop_nonpos)
  then show ?thesis by blast
qed

lemma combined_value_logic_total: "\<exists>b. combined_value_logic p pa = Inr b"
proof (cases "slots_remaining p > 0")
  case True
  then show ?thesis using combined_value_logic_exact [of p pa] by blast
next
  case False
  then have "combined_value_logic p pa = Inr False"
    by (simp add: combined_value_logic_def combined_loop_nonpos)
  then show ?thesis by blast
qed

lemmas ex_simps = fallback_strategy_def get_default_def person_get_def true_div_def Let_def

subsection \<open>Panic mode\<close>

text \<open>
  Claim C1. In a state with slots left (\<open>slots_remaining > 0\<close>, the states the
  loop decides in), if some tracked attribute has a deficit
  \<open>max 0 (target - admitted)\<close> of at least \<open>slots_remaining\<close> and the candidate
  carries that attribute, \<open>should_admit\<close> returns True, whatever the strategy.
\<close>

theorem panic_mode_override:
  assumes "slots_remaining p > 0"
    and "(attr, d) \<in> set (constraints p)"
    and "spec_deficit d \<ge> slots_remaining p"
    and "person_get pa attr"
  shows "should_admit p pa = Inr True"
proof -
  have "target d - admitted d \<ge> slots_remaining p"
    using assms(1,3) by (simp add: spec_deficit_def max_def split: if_splits)
  then have "panic_mode (slots_remaining p) pa (constraints p)"
    using assms by (auto simp: panic_mode_iff)
  then show ?thesis by (simp add: should_admit_def)
qed

text \<open>The scenario of the specification: 6 slots left, 10 still needed.\<close>

theorem panic_mode_override_witness:
  "0 < slots_remaining ex_panic
   \<and> (''young'', \<lparr>target = 600, admitted = 590\<rparr>) \<in> set (constraints ex_panic)
   \<and> slots_remaining ex_panic \<le> spec_deficit \<lparr>target = 600, admitted = 590\<rparr>
   \<and> person_get [(''young'', True)] ''young''
   \<and> should_admit ex_panic [(''young'', True)] = Inr True"
proof -
  have h1: "0 < slots_remaining ex_panic" by (simp add: ex_panic_def)
  have h2: "(''young'', \<lparr>target = 600, admitted = 590\<rparr>) \<in> set (constraints ex_panic)"
    by (simp add: ex_panic_def)
  have h3: "slots_remaining ex_panic \<le> spec_deficit \<lparr>target = 600, admitted = 590\<rparr>"
    by (simp add: ex_panic_def spec_deficit_def)
  have h4: "person_get [(''young'', True)] ''young''"
    by (simp add: person_get_def get_default_def)
  show ?thesis using h1 h2 h3 h4 panic_mode_override [OF h1 h2 h3 h4] by simp
qed

subsection \<open>Phase selection\<close>

text \<open>
  Claim C2, as the code has it. Under the policy type Hybrid and after a panic check
  that did not fire, the decision is the one of the Max-Urgency logic exactly when the
  number of admitted candidates, \<open>slots_filled\<close>, is below the phase switch point,
  and the one of the Combined-Value logic otherwise. The arrival index of the candidate
  is not an input of \<open>should_admit\<close>.
\<close>

theorem hybrid_phase_selection:
  assumes "get_default (policy_type (strategy p)) ''Hybrid'' = ''Hybrid''"
    and "\<not> panic_mode (slots_remaining p) pa (constraints p)"
  shows "should_admit p pa =
           (if slots_filled p < get_default (phase_switch_point (strategy p)) 400
            then max_urgency_logic p pa else combined_value_logic p pa)"
  using assms by (simp add: should_admit_def Let_def)

theorem hybrid_phase_selection_witness:
  "get_default (policy_type (strategy ex_early)) ''Hybrid'' = ''Hybrid''
   \<and> \<not> panic_mode (slots_remaining ex_early) [(''young'', True)] (constraints ex_early)
   \<and> slots_filled ex_early < get_default (phase_switch_point (strategy ex_early)) 400
   \<and> should_admit ex_early [(''young'', True)] = max_urgency_logic ex_early [(''young'', True)]"
proof -
  have h1: "get_default (policy_type (strategy ex_early)) ''Hybrid'' = ''Hybrid''"
    by (simp add: ex_early_def ex_simps)
  have h2: "\<not> panic_mode (slots_remaining ex_early) [(''young'', True)] (constraints ex_early)"
    by (simp add: ex_early_def ex_simps)
  have h3: "slots_filled ex_early < get_default (phase_switch_point (strategy ex_early)) 400"
    by (simp add: ex_early_def ex_simps)
  show ?thesis using h1 h2 h3 hybrid_phase_selection [OF h1 h2] by simp
qed

text \<open>
  Claim C2 as stated fails: with 100 candidates admitted, the candidate of arrival index
  500 is past the switch point 400, and the Combined-Value logic would reject this
  candidate; the code still decides by the Max-Urgency logic and admits.
\<close>

theorem phase_by_person_index_counterexample:
  "get_default (policy_type (strategy ex_early)) ''Hybrid'' = ''Hybrid''
   \<and> \<not> panic_mode (slots_remaining ex_early) [(''young'', True)] (constraints ex_early)
   \<and> should_admit ex_early [(''young'', True)] = Inr True
   \<and> spec_phase_decision ex_early [(''young'', True)] 500 = Inr False"
  by (simp add: ex_early_def should_admit_def spec_phase_decision_def max_urgency_logic_def
      combined_value_logic_def ex_simps)

subsection \<open>Early phase\<close>




subsection \<open>Late phase\<close>




subsection \<open>No slots left\<close>

text \<open>
  Claim C10. With \<open>slots_remaining = 0\<close> the decision is False for every candidate
  and strategy, and in every state \<open>should_admit\<close> returns a decision: no division
  raises \<open>ZeroDivisionError\<close>.
\<close>

theorem zero_slots_reject:
  "(slots_remaining p = 0 \<longrightarrow> should_admit p pa = Inr False)
   \<and> (\<exists>b. should_admit p pa = Inr b)"
proof
  show "slots_remaining p = 0 \<longrightarrow> should_admit p pa = Inr False"
    by (simp add: should_admit_def panic_mode_iff max_urgency_logic_def
        combined_value_logic_def urgency_loop_nonpos combined_loop_nonpos Let_def)
  show "\<exists>b. should_admit p pa = Inr b"
    using max_urgency_logic_total [of p pa] combined_value_logic_total [of p pa]
    by (auto simp: should_admit_def Let_def)
qed

theorem zero_slots_reject_witness:
  "slots_remaining ex_full = 0 \<and> should_admit ex_full [(''young'', True)] = Inr False"
proof -
  have h: "slots_remaining ex_full = 0" by (simp add: ex_full_def)
  show ?thesis using h zero_slots_reject [of ex_full "[(''young'', True)]"] by simp
qed

section \<open>Properties of the review scheduling\<close>

lemma acceptance_rate_25:
  assumes "length (recent_decisions p) \<ge> 25"
  shows "get_acceptance_rate_in_window p 25 =
           Inr (of_nat (length (filter (\<lambda>d. d)
                   (drop (length (recent_decisions p) - 25) (recent_decisions p)))) / 25)"
proof -
  have "recent_decisions p \<noteq> []" using assms by auto
  moreover have "length (drop (length (recent_decisions p) - 25) (recent_decisions p)) = 25"
    using assms by simp
  ultimately show ?thesis
    using assms by (simp add: get_acceptance_rate_in_window_def true_div_def Let_def)
qed

text \<open>
  Claim C7. A review is triggered if and only if the arrival index is positive and a
  multiple of 100, or it is above 450, at least 25 decisions are recorded and none of
  the last 25 is an admission. So no review fires at an index up to 450 that is not a
  multiple of 100.
\<close>

theorem review_trigger_condition:
  "review_triggered person_index p =
     Inr ((person_index > 0 \<and> person_index mod 100 = 0)
          \<or> (person_index > 450 \<and> length (recent_decisions p) \<ge> 25
              \<and> filter (\<lambda>d. d)
                   (drop (length (recent_decisions p) - 25) (recent_decisions p)) = []))"
proof (cases "length (recent_decisions p) \<ge> 25")
  case True
  then show ?thesis
    by (auto simp: review_triggered_def emergency_triggered_def acceptance_rate_25
        STRATEGIC_REVIEW_INTERVAL_def)
next
  case False
  then show ?thesis
    by (auto simp: review_triggered_def emergency_triggered_def STRATEGIC_REVIEW_INTERVAL_def)
qed

section \<open>Properties of the strategy provider\<close>




section \<open>Properties of the strategy cache\<close>

subsection \<open>Similarity\<close>

lemma constraint_factor_range:
  "0 \<le> constraint_factor s1 s2 a \<and> constraint_factor s1 s2 a \<le> 1"
  by (simp add: constraint_factor_def Let_def)

lemma fold_times_prod_list:
  fixes f :: "'a \<Rightarrow> rat"
  shows "fold (\<lambda>a acc. acc * f a) xs acc = acc * prod_list (map f xs)"
  by (induction xs arbitrary: acc) (simp_all add: mult.assoc)

lemma prod_list_unit_interval:
  fixes f :: "'a \<Rightarrow> rat"
  assumes "\<And>a. 0 \<le> f a \<and> f a \<le> 1"
  shows "0 \<le> prod_list (map f xs) \<and> prod_list (map f xs) \<le> 1"
proof (induction xs)
  case Nil
  then show ?case by simp
next
  case (Cons a xs)
  have "f a * prod_list (map f xs) \<le> 1 * 1"
    using assms [of a] Cons by (intro mult_mono) auto
  then show ?case using assms [of a] Cons by simp
qed


lemma constraint_similarity_range:
  "0 \<le> fold (\<lambda>attr acc. acc * constraint_factor s1 s2 attr) (constraint_keys s1 s2) 1
   \<and> fold (\<lambda>attr acc. acc * constraint_factor s1 s2 attr) (constraint_keys s1 s2) 1 \<le> 1"
  using prod_list_unit_interval [of "constraint_factor s1 s2" "constraint_keys s1 s2"]
    constraint_factor_range [of s1 s2]
  by (simp add: fold_times_prod_list)

lemma prod_list_ones:
  fixes f :: "'a \<Rightarrow> rat"
  assumes "\<And>a. f a = 1"
  shows "prod_list (map f xs) = 1"
  by (induction xs) (simp_all add: assms)

lemma constraint_similarity_refl:
  "fold (\<lambda>attr acc. acc * constraint_factor s s attr) (constraint_keys s s) 1 = 1"
proof -
  have one: "\<And>a. constraint_factor s s a = 1" by (simp add: constraint_factor_def)
  show ?thesis unfolding fold_times_prod_list
    by (simp add: prod_list_ones [of "constraint_factor s s", OF one])
qed






lemmas state_simps = state_a_def state_b_def state_c_def get_default_def



text \<open>
  Claim C9. The similarity of two game states lies between 0 and 1, and the similarity
  of a game state with itself is 1.
\<close>

theorem similarity_bounded_reflexive:
  "0 \<le> calculate_similarity s1 s2 \<and> calculate_similarity s1 s2 \<le> 1
   \<and> calculate_similarity s s = 1"
proof -
  define ps where "ps = max 0 (1 - rat_of_int \<bar>get_default (current_person s1) 0
                         - get_default (current_person s2) 0\<bar> / 100)"
  define as where "as = max 0 (1 - rat_of_int \<bar>get_default (accepted_count s1) 0
                         - get_default (accepted_count s2) 0\<bar> / 50)"
  define cs where "cs = fold (\<lambda>attr acc. acc * constraint_factor s1 s2 attr)
                          (constraint_keys s1 s2) 1"
  have eq: "calculate_similarity s1 s2 = ps * (2 / 5) + as * (3 / 10) + cs * (3 / 10)"
    by (simp add: calculate_similarity_def ps_def as_def cs_def Let_def)
  have ps: "0 \<le> ps \<and> ps \<le> 1" by (simp add: ps_def)
  have as: "0 \<le> as \<and> as \<le> 1" by (simp add: as_def)
  have cs: "0 \<le> cs \<and> cs \<le> 1" unfolding cs_def by (rule constraint_similarity_range)
  have "0 \<le> calculate_similarity s1 s2 \<and> calculate_similarity s1 s2 \<le> 1"
    using ps as cs unfolding eq by linarith
  moreover have "calculate_similarity s s = 1"
    by (simp add: calculate_similarity_def constraint_similarity_refl Let_def)
  ultimately show ?thesis by simp
qed




subsection \<open>Eviction\<close>

lemma fold_delete_filter:
  "fold (\<lambda>x entries. AList.delete (fst x) entries) rs es
   = filter (\<lambda>y. fst y \<notin> fst ` set rs) es"
proof (induction rs arbitrary: es)
  case Nil
  then show ?case by simp
next
  case (Cons r rs)
  have "AList.delete (fst r) es = filter (\<lambda>y. fst y \<noteq> fst r) es"
    by (induction es) (auto simp: AList.delete_eq)
  then show ?case using Cons by (auto intro: filter_cong)
qed

lemma distinct_keys_member:
  assumes "distinct (map fst es)" "set rs \<subseteq> set es" "y \<in> set es"
  shows "fst y \<in> fst ` set rs \<longleftrightarrow> y \<in> set rs"
proof
  assume "fst y \<in> fst ` set rs"
  then obtain r where r: "r \<in> set rs" "fst r = fst y" by auto
  then have "r \<in> set es" using assms(2) by auto
  then have "r = y"
    using assms(1,3) r(2) by (auto simp: distinct_map dest: inj_onD)
  then show "y \<in> set rs" using r(1) by simp
next
  assume "y \<in> set rs"
  then show "fst y \<in> fst ` set rs" by auto
qed

lemma oldest_fifth_subset: "set (oldest_fifth c) \<subseteq> set (cache c)"
proof -
  have "set (oldest_fifth c) \<subseteq> set (sort_key eviction_key (cache c))"
    unfolding oldest_fifth_def by (rule set_take_subset)
  then show ?thesis by simp
qed

lemma evict_cache:
  assumes "distinct (map fst (cache c))"
  shows "cache (evict_oldest_entries c) = filter (\<lambda>x. x \<notin> set (oldest_fifth c)) (cache c)"
proof -
  have "cache (evict_oldest_entries c)
        = filter (\<lambda>y. fst y \<notin> fst ` set (oldest_fifth c)) (cache c)"
    by (simp add: evict_oldest_entries_def oldest_fifth_def fold_delete_filter Let_def)
  also have "\<dots> = filter (\<lambda>x. x \<notin> set (oldest_fifth c)) (cache c)"
    using distinct_keys_member [OF assms oldest_fifth_subset]
    by (intro filter_cong) auto
  finally show ?thesis .
qed

lemma distinct_oldest_fifth:
  assumes "distinct (map fst (cache c))"
  shows "distinct (oldest_fifth c)"
proof -
  have "distinct (cache c)" using assms by (simp add: distinct_map)
  then show ?thesis by (simp add: oldest_fifth_def)
qed

lemma length_oldest_fifth: "length (oldest_fifth c) = length (cache c) div 5"
  by (simp add: oldest_fifth_def)

lemma length_remaining:
  assumes "distinct (map fst (cache c))"
  shows "length (filter (\<lambda>x. x \<notin> set (oldest_fifth c)) (cache c))
         = length (cache c) - length (cache c) div 5"
proof -
  let ?in = "filter (\<lambda>x. x \<in> set (oldest_fifth c)) (cache c)"
  have d: "distinct (cache c)" using assms by (simp add: distinct_map)
  have "distinct ?in" using d by simp
  moreover have "set ?in = set (oldest_fifth c)"
    using oldest_fifth_subset [of c] by auto
  ultimately have "length ?in = card (set (oldest_fifth c))"
    using distinct_card [of ?in] by simp
  also have "\<dots> = length (oldest_fifth c)"
    using distinct_oldest_fifth [OF assms] by (rule distinct_card)
  finally have inl: "length ?in = length (cache c) div 5"
    by (simp add: length_oldest_fifth)
  have "length ?in + length (filter (\<lambda>x. x \<notin> set (oldest_fifth c)) (cache c))
        = length (cache c)"
    using sum_length_filter_compl [of "\<lambda>x. x \<in> set (oldest_fifth c)" "cache c"] by simp
  then show ?thesis using inl by linarith
qed

lemma sorted_oldest_fifth: "sorted (map eviction_key (oldest_fifth c))"
proof -
  have "sorted (map eviction_key (sort_key eviction_key (cache c)))"
    by (rule sorted_sort_key)
  then show ?thesis
    unfolding oldest_fifth_def take_map [symmetric] by (rule sorted_wrt_take)
qed

lemma oldest_fifth_below_rest:
  assumes x: "x \<in> set (oldest_fifth c)"
    and y: "y \<in> set (cache c)" "y \<notin> set (oldest_fifth c)"
  shows "eviction_key x \<le> eviction_key y"
proof -
  let ?s = "sort_key eviction_key (cache c)"
  let ?n = "length (cache c) div 5"
  have "y \<in> set ?s" using y(1) by simp
  then have "y \<in> set (take ?n ?s) \<union> set (drop ?n ?s)"
    by (metis append_take_drop_id set_append)
  then have yd: "y \<in> set (drop ?n ?s)" using y(2) by (simp add: oldest_fifth_def)
  have "sorted (map eviction_key (take ?n ?s @ drop ?n ?s))"
    by (simp add: sorted_sort_key)
  then have "\<forall>a \<in> set (map eviction_key (take ?n ?s)). \<forall>b \<in> set (map eviction_key (drop ?n ?s)). a \<le> b"
    unfolding map_append sorted_append by blast
  then show ?thesis using x yd by (simp add: oldest_fifth_def)
qed

lemma cache_strategy_distinct:
  assumes "distinct (map fst (cache c))"
  shows "distinct (map fst (cache (cache_strategy h now c st params)))"
proof -
  have "distinct (map fst (cache (evict_oldest_entries c)))"
    using assms by (simp add: evict_cache distinct_map_filter)
  then show ?thesis
    using assms by (simp add: cache_strategy_def Let_def distinct_update)
qed

lemma cache_strategy_max: "max_cache_size (cache_strategy h now c st params) = max_cache_size c"
  by (simp add: cache_strategy_def evict_oldest_entries_def Let_def)

lemma length_update_le: "length (AList.update k v xs) \<le> Suc (length xs)"
  by (induction xs) auto

lemma cache_strategy_bound:
  assumes d: "distinct (map fst (cache c))"
    and m: "max_cache_size c = 1000"
    and l: "length (cache c) \<le> 1000"
  shows "length (cache (cache_strategy h now c st params)) \<le> 1000"
proof (cases "length (cache c) \<ge> 1000")
  case True
  then have len: "length (cache c) = 1000" using l by simp
  have "length (cache (evict_oldest_entries c)) = length (cache c) - length (cache c) div 5"
    using d by (simp only: evict_cache length_remaining)
  then have e: "length (cache (evict_oldest_entries c)) = 800"
    using len by simp
  have "length (cache (cache_strategy h now c st params))
        \<le> Suc (length (cache (evict_oldest_entries c)))"
    using True m by (simp add: cache_strategy_def Let_def length_update_le)
  then show ?thesis using e by linarith
next
  case False
  have "length (cache (cache_strategy h now c st params)) \<le> Suc (length (cache c))"
    using False m by (simp add: cache_strategy_def Let_def length_update_le)
  then show ?thesis using False by linarith
qed

lemma cache_all_invariant:
  assumes "distinct (map fst (cache c))" "max_cache_size c = 1000" "length (cache c) \<le> 1000"
  shows "distinct (map fst (cache (cache_all h calls c)))
         \<and> max_cache_size (cache_all h calls c) = 1000
         \<and> length (cache (cache_all h calls c)) \<le> 1000"
  using assms
proof (induction calls arbitrary: c)
  case Nil
  then show ?case by simp
next
  case (Cons call calls)
  obtain now st params where call: "call = (now, st, params)" by (cases call)
  have "distinct (map fst (cache (cache_strategy h now c st params)))"
    using Cons.prems by (simp add: cache_strategy_distinct)
  moreover have "max_cache_size (cache_strategy h now c st params) = 1000"
    using Cons.prems by (simp add: cache_strategy_max)
  moreover have "length (cache (cache_strategy h now c st params)) \<le> 1000"
    using Cons.prems by (simp add: cache_strategy_bound)
  ultimately show ?case using Cons.IH call by simp
qed

text \<open>
  Claim C8. From the empty cache of \<open>__init__\<close>, with maximum size 1000, no
  sequence of \<open>cache_strategy\<close> calls leaves more than 1000 entries. A call that
  finds the cache at or above its maximum size stores the new entry into the cache
  without its oldest fifth: the first \<open>n div 5\<close> entries in ascending order of
  \<open>(timestamp, hit_count)\<close>, each of them at most as large in that order as every
  entry that stays.
\<close>

theorem cache_bound_and_eviction:
  "length (cache (cache_all h calls new_cache)) \<le> 1000
   \<and> (distinct (map fst (cache c)) \<and> max_cache_size c \<le> length (cache c) \<longrightarrow>
        cache (cache_strategy h now c st params)
          = AList.update (h st)
              \<lparr>cached_params = params, original_game_state = st, timestamp = now,
               game_state_hash = h st, similarity_score = 1, hit_count = 0\<rparr>
              (filter (\<lambda>x. x \<notin> set (oldest_fifth c)) (cache c))
        \<and> length (filter (\<lambda>x. x \<notin> set (oldest_fifth c)) (cache c))
            = length (cache c) - length (cache c) div 5
        \<and> sorted (map eviction_key (oldest_fifth c))
        \<and> (\<forall>x \<in> set (oldest_fifth c).
             \<forall>y \<in> set (filter (\<lambda>x. x \<notin> set (oldest_fifth c)) (cache c)).
               eviction_key x \<le> eviction_key y))"
proof -
  have "length (cache (cache_all h calls new_cache)) \<le> 1000"
    using cache_all_invariant [of new_cache h calls] by (simp add: new_cache_def)
  moreover have "cache (cache_strategy h now c st params)
          = AList.update (h st)
              \<lparr>cached_params = params, original_game_state = st, timestamp = now,
               game_state_hash = h st, similarity_score = 1, hit_count = 0\<rparr>
              (filter (\<lambda>x. x \<notin> set (oldest_fifth c)) (cache c))"
    if "distinct (map fst (cache c))" "max_cache_size c \<le> length (cache c)"
    using that by (simp add: cache_strategy_def Let_def evict_cache)
  moreover have "length (filter (\<lambda>x. x \<notin> set (oldest_fifth c)) (cache c))
            = length (cache c) - length (cache c) div 5"
    if "distinct (map fst (cache c))"
    using that by (rule length_remaining)
  moreover have "sorted (map eviction_key (oldest_fifth c))"
    by (rule sorted_oldest_fifth)
  moreover have "\<forall>x \<in> set (oldest_fifth c).
             \<forall>y \<in> set (filter (\<lambda>x. x \<notin> set (oldest_fifth c)) (cache c)).
               eviction_key x \<le> eviction_key y"
    using oldest_fifth_below_rest [of _ c] by auto
  ultimately show ?thesis by blast
qed

theorem cache_bound_and_eviction_witness:
  "distinct (map fst (cache ex_full_cache))
   \<and> max_cache_size ex_full_cache \<le> length (cache ex_full_cache)
   \<and> oldest_fifth ex_full_cache = [ex_entry 4 state_b 10 1]
   \<and> map fst (cache (cache_strategy ex_hash 60 ex_full_cache state_a fallback_strategy))
       = [1, 2, 3, 5, 500]"
proof -
  have h1: "distinct (map fst (cache ex_full_cache))"
    by (simp add: ex_full_cache_def ex_entry_def new_cache_def)
  have h2: "max_cache_size ex_full_cache \<le> length (cache ex_full_cache)"
    by (simp add: ex_full_cache_def new_cache_def)
  have o: "oldest_fifth ex_full_cache = [ex_entry 4 state_b 10 1]"
    by (simp add: oldest_fifth_def ex_full_cache_def ex_entry_def new_cache_def eviction_key_def)
  have rest: "filter (\<lambda>x. x \<notin> set (oldest_fifth ex_full_cache)) (cache ex_full_cache)
     = [ex_entry 1 state_a 30 0, ex_entry 2 state_a 10 2, ex_entry 3 state_b 20 0,
        ex_entry 5 state_c 50 0]"
    unfolding o by (simp add: ex_full_cache_def ex_entry_def new_cache_def)
  have "cache (cache_strategy ex_hash 60 ex_full_cache state_a fallback_strategy)
          = AList.update (ex_hash state_a)
              \<lparr>cached_params = fallback_strategy, original_game_state = state_a, timestamp = 60,
               game_state_hash = ex_hash state_a, similarity_score = 1, hit_count = 0\<rparr>
              (filter (\<lambda>x. x \<notin> set (oldest_fifth ex_full_cache)) (cache ex_full_cache))"
    using cache_bound_and_eviction
      [of ex_hash "[]" ex_full_cache 60 state_a fallback_strategy] h1 h2
    by blast
  then have "map fst (cache (cache_strategy ex_hash 60 ex_full_cache state_a fallback_strategy))
       = [1, 2, 3, 5, 500]"
    unfolding rest by (simp add: ex_entry_def ex_hash_def state_simps)
  then show ?thesis using h1 h2 o by simp
qed

end
